theory Spec2Isabelle
  imports Main "HOL-Library.Multiset"
begin

section \<open>The data model of app.py\<close>

text \<open>
  The three SQLAlchemy models. Each column is a record field; \<open>id\<close> is suffixed with the
  table it belongs to, and \<open>text\<close> with \<open>_comment\<close>. Integers are Python's unbounded
  integers, a \<open>DateTime\<close> is the number of clock ticks since some epoch.
\<close>

record user =
  id_user :: int
  username :: string
  hashed_password :: string

record comment =
  id_comment :: int
  text_comment :: string
  created_at :: int
  user_id :: int

record contact_form_entry =
  id_entry :: int
  name_entry :: string
  email :: string
  message :: string

text \<open>The database: one list of rows per table, in insertion order.\<close>

record database =
  users :: "user list"
  comments :: "comment list"
  contact_form_entries :: "contact_form_entry list"

definition empty_db :: database where
  "empty_db = \<lparr>users = [], comments = [], contact_form_entries = []\<rparr>"

text \<open>
  \<open>request.session\<close> is a dictionary; the only key the program stores is \<open>user_id\<close>,
  with an integer value.
\<close>

type_synonym session = "string \<rightharpoonup> int"

text \<open>What a handler reads and writes: the database and the session of the request.\<close>

record state =
  db :: database
  session :: session

text \<open>
  What the handlers take from outside the program: the clock read by
  \<open>datetime.utcnow\<close> and the salt that \<open>pwd_context.hash\<close> draws.
\<close>

record environment =
  utcnow :: int
  salt :: string

text \<open>
  \<open>pwd_context\<close> is passlib's \<open>CryptContext\<close>. Its two operations are parameters of
  the model: \<open>hash\<close> takes the salt and the password, \<open>verify\<close> the password and a
  stored hash.
\<close>

record crypt_context =
  hash :: "string \<Rightarrow> string \<Rightarrow> string"
  verify :: "string \<Rightarrow> string \<Rightarrow> bool"

text \<open>Responses. A template is rendered from its name and its context dictionary.\<close>

datatype ctx_value = Request | UserValue "user option" | CommentsValue "comment list"

datatype response =
    TemplateResponse string "(string \<times> ctx_value) list"
  | RedirectResponse string nat

datatype http_exception = HTTPException nat string

type_synonym outcome = "http_exception + response"

definition HTTP_303_SEE_OTHER :: nat where
  "HTTP_303_SEE_OTHER = 303"

definition HTTP_401_UNAUTHORIZED :: nat where
  "HTTP_401_UNAUTHORIZED = 401"

text \<open>
  The status code a client sees: a rendered template has the default 200, a redirect
  and an exception carry theirs.
\<close>

fun status_code :: "outcome \<Rightarrow> nat" where
  "status_code (Inl (HTTPException c d)) = c"
| "status_code (Inr (TemplateResponse n c)) = 200"
| "status_code (Inr (RedirectResponse u c)) = c"

fun is_redirect :: "outcome \<Rightarrow> bool" where
  "is_redirect (Inr (RedirectResponse u c)) = True"
| "is_redirect r = False"

section \<open>The storage layer\<close>

text \<open>
  An \<open>Integer\<close> primary key is assigned by the database on insert: one more than the
  largest key of the table, and at least 1.
\<close>

definition next_id :: "int list \<Rightarrow> int" where
  "next_id ids = fold max ids 0 + 1"

text \<open>\<open>db.add(User(...)); db.commit()\<close>; the row read back has its key.\<close>

definition add_user :: "database \<Rightarrow> string \<Rightarrow> string \<Rightarrow> user \<times> database" where
  "add_user d name hashed =
     (let new_user = \<lparr>id_user = next_id (map id_user (users d)),
                       username = name, hashed_password = hashed\<rparr>
      in (new_user, d\<lparr>users := users d @ [new_user]\<rparr>))"

text \<open>
  \<open>db.add(Comment(...)); db.commit()\<close>; \<open>created_at\<close> is not given, so its column
  default \<open>datetime.utcnow\<close> is called.
\<close>

definition add_comment :: "environment \<Rightarrow> database \<Rightarrow> string \<Rightarrow> int \<Rightarrow> database" where
  "add_comment env d txt owner =
     d\<lparr>comments := comments d @
        [\<lparr>id_comment = next_id (map id_comment (comments d)), text_comment = txt,
          created_at = utcnow env, user_id = owner\<rparr>]\<rparr>"

definition add_contact_form_entry ::
    "database \<Rightarrow> string \<Rightarrow> string \<Rightarrow> string \<Rightarrow> database" where
  "add_contact_form_entry d n e m =
     d\<lparr>contact_form_entries := contact_form_entries d @
        [\<lparr>id_entry = next_id (map id_entry (contact_form_entries d)), name_entry = n,
          email = e, message = m\<rparr>]\<rparr>"

text \<open>
  \<open>db.query(Comment).order_by(Comment.created_at.desc()).all()\<close>. The query fixes the
  order of rows with different timestamps only; here rows with equal timestamps stay in
  insertion order.
\<close>

definition order_by_created_at_desc :: "comment list \<Rightarrow> comment list" where
  "order_by_created_at_desc cs = sort_key (\<lambda>c. - created_at c) cs"

section \<open>Authentication functions\<close>

definition get_user_from_db :: "database \<Rightarrow> string \<Rightarrow> user option" where
  "get_user_from_db d name = find (\<lambda>u. username u = name) (users d)"

definition get_password_hash :: "crypt_context \<Rightarrow> environment \<Rightarrow> string \<Rightarrow> string" where
  "get_password_hash pwd_context env password = hash pwd_context (salt env) password"

definition verify_password :: "crypt_context \<Rightarrow> string \<Rightarrow> string \<Rightarrow> bool" where
  "verify_password pwd_context plain_password hashed = verify pwd_context plain_password hashed"

text \<open>
  \<open>if user_id:\<close> is Python's truth test: a missing key gives \<open>None\<close>, and \<open>None\<close> and
  0 are both false.
\<close>

definition get_current_user_from_session :: "session \<Rightarrow> database \<Rightarrow> user option" where
  "get_current_user_from_session s d =
     (case s ''user_id'' of
        None \<Rightarrow> None
      | Some uid \<Rightarrow> if uid \<noteq> 0 then find (\<lambda>u. id_user u = uid) (users d) else None)"

section \<open>Routes\<close>

definition home :: "state \<Rightarrow> user option \<Rightarrow> outcome \<times> state" where
  "home st usr =
     (Inr (TemplateResponse ''index.html'' [(''request'', Request), (''user'', UserValue usr)]), st)"

definition about :: "state \<Rightarrow> user option \<Rightarrow> outcome \<times> state" where
  "about st usr =
     (Inr (TemplateResponse ''about.html'' [(''request'', Request), (''user'', UserValue usr)]), st)"

definition show_contact_form :: "state \<Rightarrow> user option \<Rightarrow> outcome \<times> state" where
  "show_contact_form st usr =
     (Inr (TemplateResponse ''contact.html'' [(''request'', Request), (''user'', UserValue usr)]), st)"

definition submit_contact_form :: "state \<Rightarrow> string \<Rightarrow> string \<Rightarrow> string \<Rightarrow> outcome \<times> state" where
  "submit_contact_form st n e m =
     (Inr (RedirectResponse ''/thank-you'' HTTP_303_SEE_OTHER),
      st\<lparr>db := add_contact_form_entry (db st) n e m\<rparr>)"

definition show_thank_you_page :: "state \<Rightarrow> user option \<Rightarrow> outcome \<times> state" where
  "show_thank_you_page st usr =
     (Inr (TemplateResponse ''thank-you.html'' [(''request'', Request), (''user'', UserValue usr)]), st)"

definition show_register_form :: "state \<Rightarrow> outcome \<times> state" where
  "show_register_form st = (Inr (TemplateResponse ''register.html'' [(''request'', Request)]), st)"

definition register_user ::
    "crypt_context \<Rightarrow> environment \<Rightarrow> state \<Rightarrow> string \<Rightarrow> string \<Rightarrow> outcome \<times> state" where
  "register_user pwd_context env st name password =
     (case get_user_from_db (db st) name of
        Some existing \<Rightarrow> (Inl (HTTPException 400 ''Username already registered''), st)
      | None \<Rightarrow>
          (let hashed = get_password_hash pwd_context env password;
               (new_user, d) = add_user (db st) name hashed
           in (Inr (RedirectResponse ''/comments'' HTTP_303_SEE_OTHER),
               \<lparr>db = d, session = (session st)(''user_id'' \<mapsto> id_user new_user)\<rparr>)))"

definition show_login_form :: "state \<Rightarrow> outcome \<times> state" where
  "show_login_form st = (Inr (TemplateResponse ''login.html'' [(''request'', Request)]), st)"

text \<open>
  \<open>not user or not verify_password(...)\<close>: the password is only verified when a user
  was found.
\<close>

definition login_user ::
    "crypt_context \<Rightarrow> state \<Rightarrow> string \<Rightarrow> string \<Rightarrow> outcome \<times> state" where
  "login_user pwd_context st name password =
     (case get_user_from_db (db st) name of
        None \<Rightarrow> (Inr (TemplateResponse ''login-error.html'' [(''request'', Request)]), st)
      | Some usr \<Rightarrow>
          if \<not> verify_password pwd_context password (hashed_password usr)
          then (Inr (TemplateResponse ''login-error.html'' [(''request'', Request)]), st)
          else (Inr (RedirectResponse ''/comments'' HTTP_303_SEE_OTHER),
                st\<lparr>session := (session st)(''user_id'' \<mapsto> id_user usr)\<rparr>))"

definition logout_user :: "state \<Rightarrow> outcome \<times> state" where
  "logout_user st = (Inr (RedirectResponse ''/'' HTTP_303_SEE_OTHER), st\<lparr>session := Map.empty\<rparr>)"

definition get_comments :: "state \<Rightarrow> user option \<Rightarrow> outcome \<times> state" where
  "get_comments st usr =
     (Inr (TemplateResponse ''comments.html''
            [(''request'', Request), (''user'', UserValue usr),
             (''comments'', CommentsValue (order_by_created_at_desc (comments (db st))))]), st)"

definition post_comment :: "environment \<Rightarrow> state \<Rightarrow> user option \<Rightarrow> string \<Rightarrow> outcome \<times> state" where
  "post_comment env st usr comment_text =
     (case usr of
        None \<Rightarrow> (Inl (HTTPException HTTP_401_UNAUTHORIZED
                        ''You must be logged in to post a comment''), st)
      | Some u \<Rightarrow> (Inr (RedirectResponse ''/comments'' HTTP_303_SEE_OTHER),
                   st\<lparr>db := add_comment env (db st) comment_text (id_user u)\<rparr>))"

text \<open>
  The route table. A parameter declared with \<open>Depends(get_current_user_from_session)\<close>
  is resolved from the request's session before the handler runs.
\<close>

datatype request =
    GET_home
  | GET_about
  | GET_contact
  | POST_contact string string string
  | GET_thank_you
  | GET_register
  | POST_register string string
  | GET_login
  | POST_login string string
  | GET_logout
  | GET_comments
  | POST_comments string

definition current_user :: "state \<Rightarrow> user option" where
  "current_user st = get_current_user_from_session (session st) (db st)"

fun handle :: "crypt_context \<Rightarrow> environment \<Rightarrow> request \<Rightarrow> state \<Rightarrow> outcome \<times> state" where
  "handle pc env GET_home st = home st (current_user st)"
| "handle pc env GET_about st = about st (current_user st)"
| "handle pc env GET_contact st = show_contact_form st (current_user st)"
| "handle pc env (POST_contact n e m) st = submit_contact_form st n e m"
| "handle pc env GET_thank_you st = show_thank_you_page st (current_user st)"
| "handle pc env GET_register st = show_register_form st"
| "handle pc env (POST_register n p) st = register_user pc env st n p"
| "handle pc env GET_login st = show_login_form st"
| "handle pc env (POST_login n p) st = login_user pc st n p"
| "handle pc env GET_logout st = logout_user st"
| "handle pc env GET_comments st = get_comments st (current_user st)"
| "handle pc env (POST_comments t) st = post_comment env st (current_user st) t"

text \<open>
  The databases the program can produce: from the empty tables, by any request, sent
  with any session and at any reading of the clock.
\<close>

inductive reachable_db :: "crypt_context \<Rightarrow> database \<Rightarrow> bool" for pc :: crypt_context where
  init: "reachable_db pc empty_db"
| step: "reachable_db pc d \<Longrightarrow> handle pc env req \<lparr>db = d, session = s\<rparr> = (r, st') \<Longrightarrow>
         reachable_db pc (db st')"

text \<open>
  The test \<open>user and verify_password(...)\<close> that \<open>login_user\<close> makes, as a function
  of its own: false when no user has the name, otherwise the verdict of the hashing scheme.
\<close>

definition verify_credentials :: "crypt_context \<Rightarrow> database \<Rightarrow> string \<Rightarrow> string \<Rightarrow> bool" where
  "verify_credentials pc d name password =
     (case get_user_from_db d name of
        None \<Rightarrow> False
      | Some usr \<Rightarrow> verify_password pc password (hashed_password usr))"

text \<open>
  A hashing scheme to evaluate the handlers with: the hash is a tag, the two characters
  of the salt and the password reversed.
\<close>

definition example_context :: crypt_context where
  "example_context =
     \<lparr>hash = (\<lambda>s p. ''$2b$'' @ s @ rev p), verify = (\<lambda>p h. drop 6 h = rev p)\<rparr>"

section \<open>Concrete states\<close>

text \<open>
  States to evaluate the handlers on: the empty database, the database after \<open>alice\<close>
  has registered with password \<open>pw1\<close>, and after she has posted a comment at time 100.
\<close>

definition env_at :: "int \<Rightarrow> environment" where
  "env_at t = \<lparr>utcnow = t, salt = ''ab''\<rparr>"

definition alice :: user where
  "alice = \<lparr>id_user = 1, username = ''alice'', hashed_password = ''$2b$ab1wp''\<rparr>"

definition initial_state :: state where
  "initial_state = \<lparr>db = empty_db, session = Map.empty\<rparr>"

definition alice_db :: database where
  "alice_db = \<lparr>users = [alice], comments = [], contact_form_entries = []\<rparr>"

definition alice_state :: state where
  "alice_state = \<lparr>db = alice_db, session = [''user_id'' \<mapsto> 1]\<rparr>"

definition first_comment :: comment where
  "first_comment = \<lparr>id_comment = 1, text_comment = ''first'', created_at = 100, user_id = 1\<rparr>"

definition second_comment :: "int \<Rightarrow> comment" where
  "second_comment t = \<lparr>id_comment = 2, text_comment = ''second'', created_at = t, user_id = 1\<rparr>"

definition commented_state :: state where
  "commented_state = alice_state\<lparr>db := alice_db\<lparr>comments := [first_comment]\<rparr>\<rparr>"

section \<open>Basic facts\<close>

lemma login_user_eq:
  "login_user pc st name password =
     (if verify_credentials pc (db st) name password
      then (Inr (RedirectResponse ''/comments'' HTTP_303_SEE_OTHER),
            st\<lparr>session := (session st)(''user_id'' \<mapsto>
                  id_user (the (get_user_from_db (db st) name)))\<rparr>)
      else (Inr (TemplateResponse ''login-error.html'' [(''request'', Request)]), st))"
  by (simp add: login_user_def verify_credentials_def split: option.splits)

lemma fold_max_ge: "(a::int) \<le> fold max xs a"
  by (induction xs arbitrary: a) (auto intro: order_trans [OF max.cobounded2])

lemma fold_max_mem: "x \<in> set xs \<Longrightarrow> (x::int) \<le> fold max xs a"
proof (induction xs arbitrary: a)
  case Nil
  then show ?case by simp
next
  case (Cons y ys)
  show ?case
  proof (cases "x = y")
    case True
    have "y \<le> max y a" by simp
    also have "\<dots> \<le> fold max ys (max y a)" by (rule fold_max_ge)
    finally show ?thesis using True by simp
  next
    case False
    with Cons show ?thesis by simp
  qed
qed

lemma next_id_pos: "0 < next_id ids"
  using fold_max_ge [of 0 ids] by (simp add: next_id_def)

lemma next_id_fresh: "x \<in> set ids \<Longrightarrow> x < next_id ids"
  using fold_max_mem [of x ids 0] by (simp add: next_id_def)




lemma find_SomeD: "find P xs = Some x \<Longrightarrow> x \<in> set xs \<and> P x"
  by (induction xs) (auto split: if_splits)

lemma find_key_unique:
  "distinct (map f xs) \<Longrightarrow> x \<in> set xs \<Longrightarrow> find (\<lambda>y. f y = f x) xs = Some x"
  by (induction xs) auto

lemma find_None_notin: "find (\<lambda>y. f y = k) xs = None \<Longrightarrow> k \<notin> set (map f xs)"
  by (induction xs) (auto split: if_splits)

lemma current_user_frame:
  "users d' = users d \<Longrightarrow>
   get_current_user_from_session s d' = get_current_user_from_session s d"
  by (simp add: get_current_user_from_session_def split: option.splits)

section \<open>Sorting the comments\<close>

lemma sort_newest_first:
  "\<forall>c'\<in>set cs. created_at c' < created_at c \<Longrightarrow>
   order_by_created_at_desc (cs @ [c]) = c # order_by_created_at_desc cs"
  unfolding order_by_created_at_desc_def
proof (induction cs)
  case Nil
  then show ?case by simp
next
  case (Cons x xs)
  then show ?case by simp
qed

lemma order_by_sorted:
  "sorted_wrt (\<lambda>a b. created_at b \<le> created_at a) (order_by_created_at_desc cs)"
  using sorted_sort_key [of "\<lambda>c. - created_at c" cs]
  by (simp add: order_by_created_at_desc_def sorted_map)

lemma order_by_mset: "mset (order_by_created_at_desc cs) = mset cs"
  by (simp add: order_by_created_at_desc_def)

section \<open>What one request does to the tables\<close>

lemma handle_users:
  "users (db (snd (handle pc env req st))) = users (db st)
   \<or> (\<exists>nu. users (db (snd (handle pc env req st))) = users (db st) @ [nu]
          \<and> id_user nu = next_id (map id_user (users (db st)))
          \<and> username nu \<notin> set (map username (users (db st))))"
proof (cases req)
  case (POST_register n p)
  then show ?thesis
    by (auto simp add: register_user_def add_user_def get_user_from_db_def Let_def
        split: option.splits dest: find_None_notin)
qed (simp_all add: home_def about_def show_contact_form_def submit_contact_form_def
      add_contact_form_entry_def show_thank_you_page_def show_register_form_def
      show_login_form_def login_user_eq logout_user_def get_comments_def
      post_comment_def add_comment_def split: option.splits)

lemma handle_comments:
  "comments (db (snd (handle pc env req st))) = comments (db st)
   \<or> (\<exists>c u. comments (db (snd (handle pc env req st))) = comments (db st) @ [c]
          \<and> u \<in> set (users (db st)) \<and> user_id c = id_user u)"
proof (cases req)
  case (POST_comments t)
  then show ?thesis
    by (auto simp add: post_comment_def add_comment_def current_user_def
        get_current_user_from_session_def split: option.splits if_splits dest: find_SomeD)
qed (simp_all add: home_def about_def show_contact_form_def submit_contact_form_def
      add_contact_form_entry_def show_thank_you_page_def show_register_form_def
      show_login_form_def login_user_eq logout_user_def get_comments_def
      register_user_def add_user_def Let_def split: option.splits)

lemma users_grow: "set (users (db st)) \<subseteq> set (users (db (snd (handle pc env req st))))"
  using handle_users [of pc env req st] by auto

lemma reachable_ids_pos:
  "reachable_db pc d \<Longrightarrow> u \<in> set (users d) \<Longrightarrow> 0 < id_user u"
proof (induction arbitrary: u rule: reachable_db.induct)
  case init
  then show ?case by (simp add: empty_db_def)
next
  case (step d env req s r st')
  from step.hyps(2) have st': "st' = snd (handle pc env req \<lparr>db = d, session = s\<rparr>)" by simp
  from handle_users [of pc env req "\<lparr>db = d, session = s\<rparr>"] step.prems step.IH
  show ?case unfolding st' by (auto simp add: next_id_pos)
qed

lemma reachable_ids_distinct:
  "reachable_db pc d \<Longrightarrow> distinct (map id_user (users d))"
proof (induction rule: reachable_db.induct)
  case init
  then show ?case by (simp add: empty_db_def)
next
  case (step d env req s r st')
  from step.hyps(2) have st': "st' = snd (handle pc env req \<lparr>db = d, session = s\<rparr>)" by simp
  from handle_users [of pc env req "\<lparr>db = d, session = s\<rparr>"] step.IH
  show ?case unfolding st' using next_id_fresh [of _ "map id_user (users d)"] by fastforce
qed

lemma reachable_usernames_distinct:
  "reachable_db pc d \<Longrightarrow> distinct (map username (users d))"
proof (induction rule: reachable_db.induct)
  case init
  then show ?case by (simp add: empty_db_def)
next
  case (step d env req s r st')
  from step.hyps(2) have st': "st' = snd (handle pc env req \<lparr>db = d, session = s\<rparr>)" by simp
  from handle_users [of pc env req "\<lparr>db = d, session = s\<rparr>"] step.IH
  show ?case unfolding st' by auto
qed

section \<open>The handlers on the concrete states\<close>

lemma register_alice:
  "register_user example_context (env_at 100) initial_state ''alice'' ''pw1'' =
     (Inr (RedirectResponse ''/comments'' 303), alice_state)"
  by (simp add: register_user_def get_user_from_db_def initial_state_def empty_db_def
      add_user_def Let_def next_id_def get_password_hash_def example_context_def env_at_def
      HTTP_303_SEE_OTHER_def alice_state_def alice_db_def alice_def)

lemma current_user_alice:
  "get_current_user_from_session (session alice_state) (db alice_state) = Some alice"
  by (simp add: get_current_user_from_session_def alice_state_def alice_db_def alice_def)

lemma current_user_commented:
  "get_current_user_from_session (session commented_state) (db commented_state) = Some alice"
  by (simp add: get_current_user_from_session_def commented_state_def alice_state_def
      alice_db_def alice_def)

lemma post_first:
  "handle example_context (env_at 100) (POST_comments ''first'') alice_state =
     (Inr (RedirectResponse ''/comments'' 303), commented_state)"
  using current_user_alice
  by (simp add: current_user_def post_comment_def add_comment_def next_id_def env_at_def
      HTTP_303_SEE_OTHER_def commented_state_def first_comment_def alice_def)
     (simp add: alice_state_def alice_db_def)

lemma post_second:
  "handle example_context (env_at t) (POST_comments ''second'') commented_state =
     (Inr (RedirectResponse ''/comments'' 303),
      commented_state\<lparr>db := (db commented_state)\<lparr>comments := [first_comment, second_comment t]\<rparr>\<rparr>)"
  using current_user_commented
  by (simp add: current_user_def post_comment_def add_comment_def next_id_def env_at_def
      HTTP_303_SEE_OTHER_def second_comment_def first_comment_def alice_def)
     (simp add: commented_state_def alice_state_def alice_db_def first_comment_def)

lemma reachable_alice_db: "reachable_db example_context alice_db"
proof -
  have "handle example_context (env_at 100) (POST_register ''alice'' ''pw1'')
          \<lparr>db = empty_db, session = Map.empty\<rparr> =
        (Inr (RedirectResponse ''/comments'' 303), alice_state)"
    using register_alice by (simp add: initial_state_def)
  from reachable_db.step [OF reachable_db.init this]
  show ?thesis by (simp add: alice_state_def)
qed

lemma reachable_commented_db: "reachable_db example_context (db commented_state)"
proof -
  have "handle example_context (env_at 100) (POST_comments ''first'')
          \<lparr>db = alice_db, session = [''user_id'' \<mapsto> 1]\<rparr> =
        (Inr (RedirectResponse ''/comments'' 303), commented_state)"
    using post_first by (simp add: alice_state_def)
  from reachable_db.step [OF reachable_alice_db this]
  show ?thesis .
qed

lemma user_alice_by_name: "get_user_from_db (db alice_state) ''alice'' = Some alice"
  by (simp add: get_user_from_db_def alice_state_def alice_db_def alice_def)


lemma wrong_password_alice:
  "\<not> verify_password example_context ''wrong'' (hashed_password alice)"
  by (simp add: verify_password_def example_context_def alice_def)


section \<open>Posting a comment without a current user\<close>

text \<open>
  C1. Whatever the state, POST /comments with a session from which no current user
  resolves fails with the 401 exception: no redirect, no rendered page, and the state,
  the comments table in particular, is as before.
\<close>

theorem post_comment_unauthorized:
  assumes "get_current_user_from_session (session st) (db st) = None"
  shows "handle pc env (POST_comments comment_text) st =
           (Inl (HTTPException 401 ''You must be logged in to post a comment''), st)
         \<and> status_code (fst (handle pc env (POST_comments comment_text) st)) = 401
         \<and> \<not> is_redirect (fst (handle pc env (POST_comments comment_text) st))
         \<and> comments (db (snd (handle pc env (POST_comments comment_text) st))) = comments (db st)"
  using assms by (simp add: post_comment_def current_user_def HTTP_401_UNAUTHORIZED_def)

theorem post_comment_unauthorized_witness:
  "get_current_user_from_session (session \<lparr>db = empty_db, session = Map.empty\<rparr>)
       (db \<lparr>db = empty_db, session = Map.empty\<rparr>) = None
   \<and> handle example_context \<lparr>utcnow = 7, salt = ''ab''\<rparr> (POST_comments ''hi'')
        \<lparr>db = empty_db, session = Map.empty\<rparr> =
       (Inl (HTTPException 401 ''You must be logged in to post a comment''),
        \<lparr>db = empty_db, session = Map.empty\<rparr>)"
proof -
  have h: "get_current_user_from_session (session \<lparr>db = empty_db, session = Map.empty\<rparr>)
       (db \<lparr>db = empty_db, session = Map.empty\<rparr>) = None"
    by (simp add: get_current_user_from_session_def)
  from post_comment_unauthorized [OF h, of example_context "\<lparr>utcnow = 7, salt = ''ab''\<rparr>" "''hi''"] h
  show ?thesis by simp
qed

section \<open>Registration\<close>





section \<open>Login\<close>





text \<open>
  C9. A failed login does not touch an established session: when a user is logged in
  and POST /login is sent with credentials that do not verify, the session is unchanged
  and still resolves to the same user.
\<close>

theorem failed_login_keeps_session:
  assumes "get_current_user_from_session (session st) (db st) = Some u"
    and "\<not> verify_credentials pc (db st) name password"
  shows "session (snd (handle pc env (POST_login name password) st)) = session st
         \<and> get_current_user_from_session
               (session (snd (handle pc env (POST_login name password) st)))
               (db (snd (handle pc env (POST_login name password) st))) = Some u"
  using assms by (simp add: login_user_eq)

theorem failed_login_keeps_session_witness:
  "get_current_user_from_session (session alice_state) (db alice_state) = Some alice
   \<and> \<not> verify_credentials example_context (db alice_state) ''alice'' ''wrong''
   \<and> session (snd (handle example_context (env_at 130) (POST_login ''alice'' ''wrong'')
        alice_state)) = session alice_state
   \<and> get_current_user_from_session
        (session (snd (handle example_context (env_at 130) (POST_login ''alice'' ''wrong'')
           alice_state)))
        (db (snd (handle example_context (env_at 130) (POST_login ''alice'' ''wrong'')
           alice_state))) = Some alice"
proof -
  have h: "\<not> verify_credentials example_context (db alice_state) ''alice'' ''wrong''"
    using wrong_password_alice by (simp add: verify_credentials_def user_alice_by_name)
  note r = failed_login_keeps_session [OF current_user_alice h, of "env_at 130"]
  from r have a: "session (snd (handle example_context (env_at 130) (POST_login ''alice'' ''wrong'')
        alice_state)) = session alice_state"
    by (rule conjunct1)
  from r have b: "get_current_user_from_session
        (session (snd (handle example_context (env_at 130) (POST_login ''alice'' ''wrong'')
           alice_state)))
        (db (snd (handle example_context (env_at 130) (POST_login ''alice'' ''wrong'')
           alice_state))) = Some alice"
    by (rule conjunct2)
  from current_user_alice h a b show ?thesis by (intro conjI)
qed

section \<open>Sessions\<close>

text \<open>
  C6. For every user \<open>u\<close> of a database the program can produce: a session whose
  \<open>user_id\<close> is set to the key of \<open>u\<close>, as \<open>login_user\<close> and \<open>register_user\<close> set
  it, resolves to \<open>u\<close>; after \<open>logout_user\<close> the session is empty and resolves to no
  user; and a login with the name of \<open>u\<close> and a password that verifies sets the session
  in exactly this way.
\<close>

theorem session_roundtrip:
  assumes "reachable_db pc d" and "u \<in> set (users d)"
  shows "get_current_user_from_session (s(''user_id'' \<mapsto> id_user u)) d = Some u
         \<and> session (snd (logout_user \<lparr>db = d, session = s(''user_id'' \<mapsto> id_user u)\<rparr>)) = Map.empty
         \<and> get_current_user_from_session
             (session (snd (logout_user \<lparr>db = d, session = s(''user_id'' \<mapsto> id_user u)\<rparr>)))
             (db (snd (logout_user \<lparr>db = d, session = s(''user_id'' \<mapsto> id_user u)\<rparr>))) = None
         \<and> (verify_password pc password (hashed_password u) \<longrightarrow>
               snd (login_user pc \<lparr>db = d, session = s\<rparr> (username u) password)
                 = \<lparr>db = d, session = s(''user_id'' \<mapsto> id_user u)\<rparr>)"
proof -
  have pos: "id_user u \<noteq> 0" using reachable_ids_pos [OF assms] by simp
  have byid: "find (\<lambda>y. id_user y = id_user u) (users d) = Some u"
    using find_key_unique [OF reachable_ids_distinct [OF assms(1)] assms(2)] .
  have byname: "find (\<lambda>y. username y = username u) (users d) = Some u"
    using find_key_unique [OF reachable_usernames_distinct [OF assms(1)] assms(2)] .
  show ?thesis
    using pos byid byname
    by (simp add: get_current_user_from_session_def logout_user_def login_user_def
        get_user_from_db_def)
qed

theorem session_roundtrip_witness:
  "reachable_db example_context alice_db
   \<and> alice \<in> set (users alice_db)
   \<and> get_current_user_from_session [''user_id'' \<mapsto> id_user alice] alice_db = Some alice
   \<and> get_current_user_from_session
        (session (snd (logout_user \<lparr>db = alice_db, session = [''user_id'' \<mapsto> id_user alice]\<rparr>)))
        (db (snd (logout_user \<lparr>db = alice_db, session = [''user_id'' \<mapsto> id_user alice]\<rparr>)))
       = None
   \<and> verify_password example_context ''pw1'' (hashed_password alice)
   \<and> snd (login_user example_context \<lparr>db = alice_db, session = Map.empty\<rparr> ''alice'' ''pw1'')
       = \<lparr>db = alice_db, session = [''user_id'' \<mapsto> id_user alice]\<rparr>"
proof -
  have mem: "alice \<in> set (users alice_db)" by (simp add: alice_db_def)
  have pw: "verify_password example_context ''pw1'' (hashed_password alice)"
    by (simp add: verify_password_def example_context_def alice_def)
  have name: "username alice = ''alice''" by (simp add: alice_def)
  note r = session_roundtrip [OF reachable_alice_db mem, of Map.empty "''pw1''"]
  from r have a:
    "get_current_user_from_session [''user_id'' \<mapsto> id_user alice] alice_db = Some alice"
    by (rule conjunct1)
  from r have b: "get_current_user_from_session
        (session (snd (logout_user \<lparr>db = alice_db, session = [''user_id'' \<mapsto> id_user alice]\<rparr>)))
        (db (snd (logout_user \<lparr>db = alice_db, session = [''user_id'' \<mapsto> id_user alice]\<rparr>)))
       = None"
    by (rule conjunct2 [THEN conjunct2, THEN conjunct1])
  from r [THEN conjunct2, THEN conjunct2, THEN conjunct2] pw have c:
    "snd (login_user example_context \<lparr>db = alice_db, session = Map.empty\<rparr> ''alice'' ''pw1'')
       = \<lparr>db = alice_db, session = [''user_id'' \<mapsto> id_user alice]\<rparr>"
    by (simp only: name)
  from reachable_alice_db mem a b pw c show ?thesis by (intro conjI)
qed

section \<open>Comments\<close>

text \<open>
  C7, as the code has it. GET /comments lists all comments, by creation timestamp
  descending. When the session resolves to a user \<open>U\<close>, POST /comments appends one
  comment owned by \<open>U\<close>, with the text given and with the reading of the clock at that
  moment as its timestamp. That timestamp is at least the previous maximum when the
  reading is, and when the reading is later than every stored timestamp the next listing
  starts with the new comment, followed by the previous listing.
\<close>

theorem post_then_list:
  "(\<exists>L. fst (handle pc env GET_comments st) =
           Inr (TemplateResponse ''comments.html''
                 [(''request'', Request),
                  (''user'', UserValue (get_current_user_from_session (session st) (db st))),
                  (''comments'', CommentsValue L)])
        \<and> mset L = mset (comments (db st))
        \<and> sorted_wrt (\<lambda>a b. created_at b \<le> created_at a) L)
   \<and> (get_current_user_from_session (session st) (db st) = Some U \<longrightarrow>
        (\<exists>c. snd (handle pc env (POST_comments t) st) =
                st\<lparr>db := (db st)\<lparr>comments := comments (db st) @ [c]\<rparr>\<rparr>
            \<and> user_id c = id_user U \<and> text_comment c = t \<and> created_at c = utcnow env
            \<and> ((\<forall>c'\<in>set (comments (db st)). created_at c' \<le> utcnow env) \<longrightarrow>
                 (\<forall>c'\<in>set (comments (db st)). created_at c' \<le> created_at c))
            \<and> ((\<forall>c'\<in>set (comments (db st)). created_at c' < utcnow env) \<longrightarrow>
                 fst (handle pc env' GET_comments (snd (handle pc env (POST_comments t) st))) =
                   Inr (TemplateResponse ''comments.html''
                         [(''request'', Request), (''user'', UserValue (Some U)),
                          (''comments'',
                           CommentsValue (c # order_by_created_at_desc (comments (db st))))]))))"
proof (rule conjI)
  show "\<exists>L. fst (handle pc env GET_comments st) =
           Inr (TemplateResponse ''comments.html''
                 [(''request'', Request),
                  (''user'', UserValue (get_current_user_from_session (session st) (db st))),
                  (''comments'', CommentsValue L)])
        \<and> mset L = mset (comments (db st))
        \<and> sorted_wrt (\<lambda>a b. created_at b \<le> created_at a) L"
    by (simp add: get_comments_def current_user_def order_by_mset order_by_sorted)
next
  show "get_current_user_from_session (session st) (db st) = Some U \<longrightarrow>
        (\<exists>c. snd (handle pc env (POST_comments t) st) =
                st\<lparr>db := (db st)\<lparr>comments := comments (db st) @ [c]\<rparr>\<rparr>
            \<and> user_id c = id_user U \<and> text_comment c = t \<and> created_at c = utcnow env
            \<and> ((\<forall>c'\<in>set (comments (db st)). created_at c' \<le> utcnow env) \<longrightarrow>
                 (\<forall>c'\<in>set (comments (db st)). created_at c' \<le> created_at c))
            \<and> ((\<forall>c'\<in>set (comments (db st)). created_at c' < utcnow env) \<longrightarrow>
                 fst (handle pc env' GET_comments (snd (handle pc env (POST_comments t) st))) =
                   Inr (TemplateResponse ''comments.html''
                         [(''request'', Request), (''user'', UserValue (Some U)),
                          (''comments'',
                           CommentsValue (c # order_by_created_at_desc (comments (db st))))])))"
  proof
    assume U: "get_current_user_from_session (session st) (db st) = Some U"
    define c where "c = \<lparr>id_comment = next_id (map id_comment (comments (db st))),
      text_comment = t, created_at = utcnow env, user_id = id_user U\<rparr>"
    have post: "snd (handle pc env (POST_comments t) st) =
                st\<lparr>db := (db st)\<lparr>comments := comments (db st) @ [c]\<rparr>\<rparr>"
      using U by (simp add: current_user_def post_comment_def add_comment_def c_def)
    have fields: "user_id c = id_user U" "text_comment c = t" "created_at c = utcnow env"
      by (simp_all add: c_def)
    have first: "fst (handle pc env' GET_comments (snd (handle pc env (POST_comments t) st))) =
                   Inr (TemplateResponse ''comments.html''
                         [(''request'', Request), (''user'', UserValue (Some U)),
                          (''comments'',
                           CommentsValue (c # order_by_created_at_desc (comments (db st))))])"
      if "\<forall>c'\<in>set (comments (db st)). created_at c' < utcnow env"
    proof -
      from that have "\<forall>c'\<in>set (comments (db st)). created_at c' < created_at c"
        by (simp add: fields)
      then have sorted: "order_by_created_at_desc (comments (db st) @ [c]) =
          c # order_by_created_at_desc (comments (db st))"
        by (rule sort_newest_first)
      have cu: "current_user (st\<lparr>db := (db st)\<lparr>comments := comments (db st) @ [c]\<rparr>\<rparr>) = Some U"
        using U current_user_frame [of "(db st)\<lparr>comments := comments (db st) @ [c]\<rparr>" "db st" "session st"]
        by (simp add: current_user_def)
      show ?thesis
        unfolding post by (simp add: get_comments_def cu sorted)
    qed
    show "\<exists>c. snd (handle pc env (POST_comments t) st) =
                st\<lparr>db := (db st)\<lparr>comments := comments (db st) @ [c]\<rparr>\<rparr>
            \<and> user_id c = id_user U \<and> text_comment c = t \<and> created_at c = utcnow env
            \<and> ((\<forall>c'\<in>set (comments (db st)). created_at c' \<le> utcnow env) \<longrightarrow>
                 (\<forall>c'\<in>set (comments (db st)). created_at c' \<le> created_at c))
            \<and> ((\<forall>c'\<in>set (comments (db st)). created_at c' < utcnow env) \<longrightarrow>
                 fst (handle pc env' GET_comments (snd (handle pc env (POST_comments t) st))) =
                   Inr (TemplateResponse ''comments.html''
                         [(''request'', Request), (''user'', UserValue (Some U)),
                          (''comments'',
                           CommentsValue (c # order_by_created_at_desc (comments (db st))))]))"
      using post fields first by (intro exI [of _ c]) simp
  qed
qed

theorem post_then_list_witness:
  "get_current_user_from_session (session commented_state) (db commented_state) = Some alice
   \<and> comments (db commented_state) = [first_comment]
   \<and> created_at first_comment < utcnow (env_at 150)
   \<and> snd (handle example_context (env_at 150) (POST_comments ''second'') commented_state) =
       commented_state\<lparr>db := (db commented_state)
          \<lparr>comments := [first_comment, second_comment 150]\<rparr>\<rparr>
   \<and> user_id (second_comment 150) = id_user alice
   \<and> created_at first_comment \<le> created_at (second_comment 150)
   \<and> fst (handle example_context (env_at 151) GET_comments
        (snd (handle example_context (env_at 150) (POST_comments ''second'') commented_state))) =
       Inr (TemplateResponse ''comments.html''
             [(''request'', Request), (''user'', UserValue (Some alice)),
              (''comments'', CommentsValue [second_comment 150, first_comment])])"
proof -
  have cs: "comments (db commented_state) = [first_comment]"
    by (simp add: commented_state_def alice_state_def alice_db_def)
  have older: "created_at first_comment < utcnow (env_at 150)"
    by (simp add: first_comment_def env_at_def)
  have post: "snd (handle example_context (env_at 150) (POST_comments ''second'') commented_state) =
       commented_state\<lparr>db := (db commented_state)
          \<lparr>comments := [first_comment, second_comment 150]\<rparr>\<rparr>"
    by (simp only: post_second snd_conv)
  from post_then_list [of example_context "env_at 150" commented_state alice "''second''"
      "env_at 151"] current_user_commented
  obtain c where
    c: "snd (handle example_context (env_at 150) (POST_comments ''second'') commented_state) =
          commented_state\<lparr>db := (db commented_state)
            \<lparr>comments := comments (db commented_state) @ [c]\<rparr>\<rparr>"
    and owner: "user_id c = id_user alice"
    and ge: "(\<forall>c'\<in>set (comments (db commented_state)). created_at c' \<le> utcnow (env_at 150)) \<longrightarrow>
             (\<forall>c'\<in>set (comments (db commented_state)). created_at c' \<le> created_at c)"
    and first: "(\<forall>c'\<in>set (comments (db commented_state)). created_at c' < utcnow (env_at 150)) \<longrightarrow>
       fst (handle example_context (env_at 151) GET_comments
        (snd (handle example_context (env_at 150) (POST_comments ''second'') commented_state))) =
       Inr (TemplateResponse ''comments.html''
             [(''request'', Request), (''user'', UserValue (Some alice)),
              (''comments'', CommentsValue
                 (c # order_by_created_at_desc (comments (db commented_state))))])"
    by blast
  from c post have "comments (db (commented_state\<lparr>db := (db commented_state)
            \<lparr>comments := comments (db commented_state) @ [c]\<rparr>\<rparr>)) =
      comments (db (commented_state\<lparr>db := (db commented_state)
          \<lparr>comments := [first_comment, second_comment 150]\<rparr>\<rparr>))"
    by simp
  then have c_eq: "c = second_comment 150" by (simp add: cs)
  from ge older have ge': "created_at first_comment \<le> created_at (second_comment 150)"
    by (simp add: cs c_eq)
  from first older have first': "fst (handle example_context (env_at 151) GET_comments
        (snd (handle example_context (env_at 150) (POST_comments ''second'') commented_state))) =
       Inr (TemplateResponse ''comments.html''
             [(''request'', Request), (''user'', UserValue (Some alice)),
              (''comments'', CommentsValue [second_comment 150, first_comment])])"
    by (simp add: cs c_eq order_by_created_at_desc_def)
  from owner have owner': "user_id (second_comment 150) = id_user alice" by (simp add: c_eq)
  from current_user_commented cs older post owner' ge' first' show ?thesis by (intro conjI)
qed

text \<open>
  C7 as stated does not hold for every store: the timestamp of a new comment is whatever
  the clock reads, and nothing compares it with the stored ones. Here alice registers,
  posts a comment when the clock reads 100 and another when it reads 40: the second
  comment is hers, its timestamp is below the previous maximum, and the next listing
  starts with the first comment.
\<close>

theorem post_then_list_counterexample:
  "handle example_context (env_at 100) (POST_register ''alice'' ''pw1'') initial_state =
     (Inr (RedirectResponse ''/comments'' 303), alice_state)
   \<and> handle example_context (env_at 100) (POST_comments ''first'') alice_state =
     (Inr (RedirectResponse ''/comments'' 303), commented_state)
   \<and> snd (handle example_context (env_at 40) (POST_comments ''second'') commented_state) =
       commented_state\<lparr>db := (db commented_state)
          \<lparr>comments := [first_comment, second_comment 40]\<rparr>\<rparr>
   \<and> user_id (second_comment 40) = id_user alice
   \<and> created_at (second_comment 40) < created_at first_comment
   \<and> fst (handle example_context (env_at 41) GET_comments
        (snd (handle example_context (env_at 40) (POST_comments ''second'') commented_state))) =
       Inr (TemplateResponse ''comments.html''
             [(''request'', Request), (''user'', UserValue (Some alice)),
              (''comments'', CommentsValue [first_comment, second_comment 40])])"
proof -
  have a: "handle example_context (env_at 100) (POST_register ''alice'' ''pw1'') initial_state =
     (Inr (RedirectResponse ''/comments'' 303), alice_state)"
    using register_alice by simp
  have c: "snd (handle example_context (env_at 40) (POST_comments ''second'') commented_state) =
       commented_state\<lparr>db := (db commented_state)
          \<lparr>comments := [first_comment, second_comment 40]\<rparr>\<rparr>"
    by (simp only: post_second snd_conv)
  have d: "user_id (second_comment 40) = id_user alice"
    by (simp add: second_comment_def alice_def)
  have e: "created_at (second_comment 40) < created_at first_comment"
    by (simp add: second_comment_def first_comment_def)
  have cu: "current_user (commented_state\<lparr>db := (db commented_state)
          \<lparr>comments := [first_comment, second_comment 40]\<rparr>\<rparr>) = Some alice"
    using current_user_commented
      current_user_frame [of "(db commented_state)\<lparr>comments := [first_comment, second_comment 40]\<rparr>"
        "db commented_state" "session commented_state"]
    by (simp add: current_user_def)
  have f: "fst (handle example_context (env_at 41) GET_comments
        (snd (handle example_context (env_at 40) (POST_comments ''second'') commented_state))) =
       Inr (TemplateResponse ''comments.html''
             [(''request'', Request), (''user'', UserValue (Some alice)),
              (''comments'', CommentsValue [first_comment, second_comment 40])])"
    unfolding c
    by (simp only: handle.simps cu get_comments_def fst_conv)
       (simp add: order_by_created_at_desc_def second_comment_def first_comment_def)
  from a post_first c d e f show ?thesis by (intro conjI)
qed

section \<open>Referential integrity\<close>

text \<open>
  C8. In every database the program can produce, each comment's \<open>user_id\<close> is the
  key of a user in the users table.
\<close>

theorem referential_integrity:
  "reachable_db pc d \<Longrightarrow> \<forall>c\<in>set (comments d). \<exists>u\<in>set (users d). id_user u = user_id c"
proof (induction rule: reachable_db.induct)
  case init
  then show ?case by (simp add: empty_db_def)
next
  case (step d env req s r st')
  from step.hyps(2) have st': "st' = snd (handle pc env req \<lparr>db = d, session = s\<rparr>)" by simp
  have grow: "set (users d) \<subseteq> set (users (db st'))"
    unfolding st' using users_grow [of "\<lparr>db = d, session = s\<rparr>" pc env req] by simp
  from handle_comments [of pc env req "\<lparr>db = d, session = s\<rparr>"]
  show ?case
  proof
    assume "comments (db (snd (handle pc env req \<lparr>db = d, session = s\<rparr>)))
              = comments (db \<lparr>db = d, session = s\<rparr>)"
    then have "comments (db st') = comments d" by (simp add: st')
    with step.IH grow show ?thesis by fastforce
  next
    assume "\<exists>c u. comments (db (snd (handle pc env req \<lparr>db = d, session = s\<rparr>)))
                = comments (db \<lparr>db = d, session = s\<rparr>) @ [c]
              \<and> u \<in> set (users (db \<lparr>db = d, session = s\<rparr>)) \<and> user_id c = id_user u"
    then obtain c u where c: "comments (db st') = comments d @ [c]"
      and u: "u \<in> set (users d)" "user_id c = id_user u"
      by (auto simp add: st')
    show ?thesis
    proof
      fix c' assume "c' \<in> set (comments (db st'))"
      then have "c' \<in> set (comments d) \<or> c' = c" using c by auto
      then show "\<exists>u\<in>set (users (db st')). id_user u = user_id c'"
        using step.IH grow u by fastforce
    qed
  qed
qed

theorem referential_integrity_witness:
  "reachable_db example_context (db commented_state)
   \<and> users (db commented_state) = [alice]
   \<and> comments (db commented_state) = [first_comment]
   \<and> id_user alice = user_id first_comment"
proof -
  have cs: "comments (db commented_state) = [first_comment]"
    and us: "users (db commented_state) = [alice]"
    by (simp_all add: commented_state_def alice_state_def alice_db_def)
  from referential_integrity [OF reachable_commented_db]
  have "\<exists>u\<in>set (users (db commented_state)). id_user u = user_id first_comment"
    by (simp add: cs)
  then have "id_user alice = user_id first_comment" by (simp add: us)
  with reachable_commented_db cs us show ?thesis by simp
qed

section \<open>Page renders\<close>

text \<open>
  C10. The handlers that render a page (home, about, contact form, thank-you, register
  form, login form, comments list) return the state they were given: the three tables
  and the session are unchanged.
\<close>

theorem page_renders_read_only:
  "snd (handle pc env GET_home st) = st
   \<and> snd (handle pc env GET_about st) = st
   \<and> snd (handle pc env GET_contact st) = st
   \<and> snd (handle pc env GET_thank_you st) = st
   \<and> snd (handle pc env GET_register st) = st
   \<and> snd (handle pc env GET_login st) = st
   \<and> snd (handle pc env GET_comments st) = st"
  by (simp add: home_def about_def show_contact_form_def show_thank_you_page_def
      show_register_form_def show_login_form_def get_comments_def)

end
